theory Spec2Isabelle
  imports Complex_Main
begin

section \<open>The rate limiter of \<^verbatim>\<open>src/code/rate-limiter.py\<close>\<close>

text \<open>
  The two classes of the source keep, for each identifier, a number and the time of the
  last admitted request in two dictionaries. Numbers are Python floats (and the integers
  of the configuration); they are read here as real numbers, the arithmetic the spec
  itself uses. The dictionaries are maps from the identifier, a string, to a real.
  \<^verbatim>\<open>time.time()\<close> is the one input that \<^verbatim>\<open>allow_request\<close> reads from
  its environment: it is the parameter \<open>now\<close> of the model. A method that mutates
  \<^verbatim>\<open>self\<close> returns the object as it is after the call. A call is one step:
  calls run one after another, and the interleaving of the statements of two calls in
  two threads (the source takes no lock) is not part of the model.
\<close>

datatype error = InvalidConfiguration

subsection \<open>InMemoryTokenBucket\<close>

record InMemoryTokenBucket =
  capacity :: real
  refill_rate :: real
  tokens :: "string \<rightharpoonup> real"
  timestamps :: "string \<rightharpoonup> real"

text \<open>
  \<^verbatim>\<open>__init__\<close> (lines 8-12) stores its two arguments and two empty dictionaries.
  It has no \<^verbatim>\<open>raise\<close>: the result is the object, for every argument.
\<close>

definition InMemoryTokenBucket_init :: "real \<Rightarrow> real \<Rightarrow> error + InMemoryTokenBucket" where
  "InMemoryTokenBucket_init c r =
     Inr \<lparr>capacity = c, refill_rate = r, tokens = Map.empty, timestamps = Map.empty\<rparr>"

text \<open>
  Lines 16-19: the local variable \<^verbatim>\<open>new_tokens\<close>, from the stored count (the
  capacity when the identifier has none) and the stored time (\<open>now\<close> when it has none).
\<close>

definition new_tokens :: "InMemoryTokenBucket \<Rightarrow> string \<Rightarrow> real \<Rightarrow> real" where
  "new_tokens self identifier now =
     (let tokens' = (case tokens self identifier of None \<Rightarrow> capacity self | Some v \<Rightarrow> v);
          last_refill = (case timestamps self identifier of None \<Rightarrow> now | Some t \<Rightarrow> t)
      in min (capacity self) (tokens' + (now - last_refill) * refill_rate self))"

text \<open>Lines 14-25: the early return of line 21 leaves the object as it was.\<close>

definition InMemoryTokenBucket_allow_request ::
    "InMemoryTokenBucket \<Rightarrow> string \<Rightarrow> real \<Rightarrow> bool \<times> InMemoryTokenBucket" where
  "InMemoryTokenBucket_allow_request self identifier now =
     (if new_tokens self identifier now < 1 then (False, self)
      else (True, self\<lparr>tokens := (tokens self)(identifier \<mapsto> new_tokens self identifier now - 1),
                        timestamps := (timestamps self)(identifier \<mapsto> now)\<rparr>))"

subsection \<open>InMemoryLeakyBucket\<close>

record InMemoryLeakyBucket =
  capacity :: real
  leak_rate :: real
  water_level :: "string \<rightharpoonup> real"
  last_checked :: "string \<rightharpoonup> real"

definition InMemoryLeakyBucket_init :: "real \<Rightarrow> real \<Rightarrow> error + InMemoryLeakyBucket" where
  "InMemoryLeakyBucket_init c r =
     Inr \<lparr>capacity = c, leak_rate = r, water_level = Map.empty, last_checked = Map.empty\<rparr>"

text \<open>
  Lines 39-43: the local variable \<^verbatim>\<open>level\<close> after the leak, from the stored level
  (0 when the identifier has none) and the stored time (\<open>now\<close> when it has none).
\<close>

definition level :: "InMemoryLeakyBucket \<Rightarrow> string \<Rightarrow> real \<Rightarrow> real" where
  "level self identifier now =
     (let level' = (case water_level self identifier of None \<Rightarrow> 0 | Some v \<Rightarrow> v);
          last_time = (case last_checked self identifier of None \<Rightarrow> now | Some t \<Rightarrow> t);
          leaked = (now - last_time) * leak_rate self
      in max 0 (level' - leaked))"

text \<open>Lines 37-50: the early return of line 46 leaves the object as it was.\<close>

definition InMemoryLeakyBucket_allow_request ::
    "InMemoryLeakyBucket \<Rightarrow> string \<Rightarrow> real \<Rightarrow> bool \<times> InMemoryLeakyBucket" where
  "InMemoryLeakyBucket_allow_request self identifier now =
     (if level self identifier now + 1 > capacity self then (False, self)
      else (True, self\<lparr>water_level := (water_level self)(identifier \<mapsto> level self identifier now + 1),
                        last_checked := (last_checked self)(identifier \<mapsto> now)\<rparr>))"

subsection \<open>The Flask application\<close>

text \<open>
  Lines 60-63 build the one limiter of the process, with capacity 5 and rate 1; the
  constant \<^verbatim>\<open>RATE_LIMIT_ALGO\<close> chooses the class. Both objects are given here.
\<close>

definition rate_limiter_token :: InMemoryTokenBucket where
  "rate_limiter_token =
     \<lparr>InMemoryTokenBucket.capacity = 5, refill_rate = 1, tokens = Map.empty, timestamps = Map.empty\<rparr>"

definition rate_limiter_leaky :: InMemoryLeakyBucket where
  "rate_limiter_leaky =
     \<lparr>capacity = 5, leak_rate = 1, water_level = Map.empty, last_checked = Map.empty\<rparr>"

text \<open>
  The route \<^verbatim>\<open>/api\<close> (lines 65-70) calls \<^verbatim>\<open>allow_request\<close> once for each
  request, with the user of the request. A run of the server on a sequence of requests,
  each with its user and the time the clock shows during the call, is the list of the
  answers and the limiter after the last request.
\<close>

fun token_requests ::
    "InMemoryTokenBucket \<Rightarrow> (string \<times> real) list \<Rightarrow> bool list \<times> InMemoryTokenBucket" where
  "token_requests self [] = ([], self)"
| "token_requests self ((identifier, now) # rs) =
     (case InMemoryTokenBucket_allow_request self identifier now of
        (b, self') \<Rightarrow> (case token_requests self' rs of (bs, self'') \<Rightarrow> (b # bs, self'')))"

fun leaky_requests ::
    "InMemoryLeakyBucket \<Rightarrow> (string \<times> real) list \<Rightarrow> bool list \<times> InMemoryLeakyBucket" where
  "leaky_requests self [] = ([], self)"
| "leaky_requests self ((identifier, now) # rs) =
     (case InMemoryLeakyBucket_allow_request self identifier now of
        (b, self') \<Rightarrow> (case leaky_requests self' rs of (bs, self'') \<Rightarrow> (b # bs, self'')))"

text \<open>
  Three limiters that the application reaches: the Token Bucket and the Leaky Bucket
  limiter after four requests of the default user at time 10, and the Leaky Bucket
  limiter after five requests of that user at time 0.
\<close>

definition token_after_four :: InMemoryTokenBucket where
  "token_after_four = snd (token_requests rate_limiter_token
     [(''anonymous'', 10), (''anonymous'', 10), (''anonymous'', 10), (''anonymous'', 10)])"

definition leaky_after_four :: InMemoryLeakyBucket where
  "leaky_after_four = snd (leaky_requests rate_limiter_leaky
     [(''anonymous'', 10), (''anonymous'', 10), (''anonymous'', 10), (''anonymous'', 10)])"

definition leaky_after_five :: InMemoryLeakyBucket where
  "leaky_after_five = snd (leaky_requests rate_limiter_leaky
     [(''anonymous'', 0), (''anonymous'', 0), (''anonymous'', 0), (''anonymous'', 0), (''anonymous'', 0)])"

section \<open>The limiters of the application\<close>

lemma rate_limiter_token_init: "InMemoryTokenBucket_init 5 1 = Inr rate_limiter_token"
  by (simp add: InMemoryTokenBucket_init_def rate_limiter_token_def)

lemma rate_limiter_leaky_init: "InMemoryLeakyBucket_init 5 1 = Inr rate_limiter_leaky"
  by (simp add: InMemoryLeakyBucket_init_def rate_limiter_leaky_def)

lemmas model_defs = InMemoryTokenBucket_allow_request_def new_tokens_def
  InMemoryLeakyBucket_allow_request_def level_def rate_limiter_token_def rate_limiter_leaky_def

lemma token_after_four_eq:
  "token_after_four =
     rate_limiter_token\<lparr>tokens := [''anonymous'' \<mapsto> 1], timestamps := [''anonymous'' \<mapsto> 10]\<rparr>"
  by (simp add: token_after_four_def model_defs)

lemma leaky_after_four_eq:
  "leaky_after_four =
     rate_limiter_leaky\<lparr>water_level := [''anonymous'' \<mapsto> 4], last_checked := [''anonymous'' \<mapsto> 10]\<rparr>"
  by (simp add: leaky_after_four_def model_defs)

lemma leaky_after_five_eq:
  "leaky_after_five =
     rate_limiter_leaky\<lparr>water_level := [''anonymous'' \<mapsto> 5], last_checked := [''anonymous'' \<mapsto> 0]\<rparr>"
  by (simp add: leaky_after_five_def model_defs)

section \<open>A burst of requests at one instant\<close>





section \<open>Rejection\<close>

text \<open>
  C5. Whenever the Token Bucket engine rejects a call, that is, whenever the available
  tokens are below 1, the call returns false and the object is the one it was given:
  no stored token count and no stored time is changed, for this identifier or any other,
  and the time of the call is not stored.
\<close>

theorem token_rejection_leaves_state:
  "new_tokens self identifier now < 1 \<Longrightarrow>
     InMemoryTokenBucket_allow_request self identifier now = (False, self)"
  by (simp add: InMemoryTokenBucket_allow_request_def)

theorem token_rejection_leaves_state_witness:
  "new_tokens (rate_limiter_token\<lparr>tokens := [''bob'' \<mapsto> 0], timestamps := [''bob'' \<mapsto> 3]\<rparr>) ''bob'' (7 / 2) < 1
   \<and> InMemoryTokenBucket_allow_request
        (rate_limiter_token\<lparr>tokens := [''bob'' \<mapsto> 0], timestamps := [''bob'' \<mapsto> 3]\<rparr>) ''bob'' (7 / 2)
      = (False, rate_limiter_token\<lparr>tokens := [''bob'' \<mapsto> 0], timestamps := [''bob'' \<mapsto> 3]\<rparr>)"
  using token_rejection_leaves_state
    [of "rate_limiter_token\<lparr>tokens := [''bob'' \<mapsto> 0], timestamps := [''bob'' \<mapsto> 3]\<rparr>" "''bob''" "7 / 2"]
  by (simp add: new_tokens_def rate_limiter_token_def)

text \<open>
  The Leaky Bucket engine has the same early return (line 46): on a rejected call nothing
  is written. At the limiter reached by five requests at time 0, a call half a time unit
  later is rejected, the level after the leak is 9/2, and the stored level stays 5 and the
  stored time stays 0. So C3, which has the drained level and the time of the call stored
  on rejection, does not hold of the code.
\<close>

theorem leaky_rejection_counterexample:
  "capacity leaky_after_five < level leaky_after_five ''anonymous'' (1 / 2) + 1
   \<and> level leaky_after_five ''anonymous'' (1 / 2) = 9 / 2
   \<and> fst (InMemoryLeakyBucket_allow_request leaky_after_five ''anonymous'' (1 / 2)) = False
   \<and> water_level (snd (InMemoryLeakyBucket_allow_request leaky_after_five ''anonymous'' (1 / 2)))
         ''anonymous'' = Some 5
   \<and> water_level (snd (InMemoryLeakyBucket_allow_request leaky_after_five ''anonymous'' (1 / 2)))
         ''anonymous'' \<noteq> Some (level leaky_after_five ''anonymous'' (1 / 2))
   \<and> last_checked (snd (InMemoryLeakyBucket_allow_request leaky_after_five ''anonymous'' (1 / 2)))
         ''anonymous'' = Some 0
   \<and> last_checked (snd (InMemoryLeakyBucket_allow_request leaky_after_five ''anonymous'' (1 / 2)))
         ''anonymous'' \<noteq> Some (1 / 2)"
  by (simp add: leaky_after_five_eq model_defs)

text \<open>
  C3, amended. Whenever the Leaky Bucket engine rejects a call, that is, whenever the
  level after the leak plus 1 exceeds the capacity, the call returns false and the object
  is the one it was given: the stored water level and the stored time of the identifier
  are not changed.
\<close>

theorem leaky_rejection_leaves_state:
  "capacity lb < level lb identifier now + 1 \<Longrightarrow>
     InMemoryLeakyBucket_allow_request lb identifier now = (False, lb)"
  by (simp add: InMemoryLeakyBucket_allow_request_def)

theorem leaky_rejection_leaves_state_witness:
  "capacity leaky_after_five < level leaky_after_five ''anonymous'' (1 / 2) + 1
   \<and> InMemoryLeakyBucket_allow_request leaky_after_five ''anonymous'' (1 / 2) = (False, leaky_after_five)
   \<and> water_level leaky_after_five ''anonymous'' = Some 5
   \<and> last_checked leaky_after_five ''anonymous'' = Some 0"
  using leaky_rejection_leaves_state [of leaky_after_five "''anonymous''" "1 / 2"]
  by (simp add: leaky_after_five_eq level_def rate_limiter_leaky_def)

text \<open>
  Nothing is lost by not writing: with a clock that does not go back and a rate that is
  not negative, the level a later call computes from the untouched state is the level it
  would compute had the drained level and the time been stored in between.
\<close>

lemma leaky_drain_continues:
  assumes "water_level lb identifier = Some l" and "last_checked lb identifier = Some t0"
    and "t0 \<le> t1" and "t1 \<le> t2" and "0 \<le> leak_rate lb"
  shows "level (lb\<lparr>water_level := (water_level lb)(identifier \<mapsto> level lb identifier t1),
                   last_checked := (last_checked lb)(identifier \<mapsto> t1)\<rparr>) identifier t2
         = level lb identifier t2"
proof -
  let ?a = "(t1 - t0) * leak_rate lb" and ?b = "(t2 - t1) * leak_rate lb"
  have a: "0 \<le> ?a" and b: "0 \<le> ?b"
    using assms by simp_all
  have sum: "(t2 - t0) * leak_rate lb = ?a + ?b"
    by (simp add: algebra_simps)
  have "max 0 (max 0 (l - ?a) - ?b) = max 0 (l - (?a + ?b))"
    using a b by (simp add: max_def)
  with assms(1,2) sum show ?thesis
    by (simp add: level_def)
qed

section \<open>Bounds of the stored numbers\<close>

text \<open>
  One call keeps every stored token count between 0 and the capacity: what line 23 stores
  is \<^verbatim>\<open>new_tokens - 1\<close>, where \<^verbatim>\<open>new_tokens\<close> is at least 1 (line 20) and
  at most the capacity (line 19).
\<close>

lemma token_step_bounds:
  assumes "\<And>i v. tokens tb i = Some v \<Longrightarrow> 0 \<le> v \<and> v \<le> InMemoryTokenBucket.capacity tb"
    and "tokens (snd (InMemoryTokenBucket_allow_request tb identifier now)) i = Some v"
  shows "0 \<le> v \<and> v \<le> InMemoryTokenBucket.capacity tb"
proof (cases "new_tokens tb identifier now < 1")
  case True
  with assms show ?thesis
    by (simp add: InMemoryTokenBucket_allow_request_def)
next
  case False
  have "new_tokens tb identifier now \<le> InMemoryTokenBucket.capacity tb"
    by (simp add: new_tokens_def Let_def)
  with False assms show ?thesis
    by (auto simp: InMemoryTokenBucket_allow_request_def split: if_splits)
qed

lemma token_step_capacity:
  "InMemoryTokenBucket.capacity (snd (InMemoryTokenBucket_allow_request tb identifier now)) =
     InMemoryTokenBucket.capacity tb"
  by (simp add: InMemoryTokenBucket_allow_request_def)

lemma token_requests_bounds:
  "(\<And>i v. tokens tb i = Some v \<Longrightarrow> 0 \<le> v \<and> v \<le> InMemoryTokenBucket.capacity tb) \<Longrightarrow>
   tokens (snd (token_requests tb calls)) i = Some v \<Longrightarrow>
   0 \<le> v \<and> v \<le> InMemoryTokenBucket.capacity tb"
proof (induction calls arbitrary: tb)
  case Nil
  then show ?case by simp
next
  case (Cons call calls)
  obtain who now where call: "call = (who, now)"
    by (cases call)
  let ?tb' = "snd (InMemoryTokenBucket_allow_request tb who now)"
  have inv: "\<And>j w. tokens ?tb' j = Some w \<Longrightarrow> 0 \<le> w \<and> w \<le> InMemoryTokenBucket.capacity ?tb'"
    using token_step_bounds [of tb who now] Cons.prems(1)
    by (simp add: token_step_capacity)
  have "tokens (snd (token_requests ?tb' calls)) i = Some v"
    using Cons.prems(2) call by (simp add: split_beta)
  with inv have "0 \<le> v \<and> v \<le> InMemoryTokenBucket.capacity ?tb'"
    by (rule Cons.IH)
  then show ?case
    by (simp add: token_step_capacity)
qed

text \<open>
  The same for the water level: what line 48 stores is \<^verbatim>\<open>level + 1\<close>, where
  \<^verbatim>\<open>level\<close> is at least 0 (line 43) and \<^verbatim>\<open>level + 1\<close> at most the capacity
  (line 45).
\<close>

lemma leaky_step_bounds:
  assumes "\<And>i v. water_level lb i = Some v \<Longrightarrow> 0 \<le> v \<and> v \<le> capacity lb"
    and "water_level (snd (InMemoryLeakyBucket_allow_request lb identifier now)) i = Some v"
  shows "0 \<le> v \<and> v \<le> capacity lb"
proof (cases "level lb identifier now + 1 > capacity lb")
  case True
  with assms show ?thesis
    by (simp add: InMemoryLeakyBucket_allow_request_def)
next
  case False
  have "0 \<le> level lb identifier now"
    by (simp add: level_def Let_def)
  with False assms show ?thesis
    by (auto simp: InMemoryLeakyBucket_allow_request_def split: if_splits)
qed

lemma leaky_step_capacity:
  "capacity (snd (InMemoryLeakyBucket_allow_request lb identifier now)) = capacity lb"
  by (simp add: InMemoryLeakyBucket_allow_request_def)

lemma leaky_requests_bounds:
  "(\<And>i v. water_level lb i = Some v \<Longrightarrow> 0 \<le> v \<and> v \<le> capacity lb) \<Longrightarrow>
   water_level (snd (leaky_requests lb calls)) i = Some v \<Longrightarrow>
   0 \<le> v \<and> v \<le> capacity lb"
proof (induction calls arbitrary: lb)
  case Nil
  then show ?case by simp
next
  case (Cons call calls)
  obtain who now where call: "call = (who, now)"
    by (cases call)
  let ?lb' = "snd (InMemoryLeakyBucket_allow_request lb who now)"
  have inv: "\<And>j w. water_level ?lb' j = Some w \<Longrightarrow> 0 \<le> w \<and> w \<le> capacity ?lb'"
    using leaky_step_bounds [of lb who now] Cons.prems(1)
    by (simp add: leaky_step_capacity)
  have "water_level (snd (leaky_requests ?lb' calls)) i = Some v"
    using Cons.prems(2) call by (simp add: split_beta)
  with inv have "0 \<le> v \<and> v \<le> capacity ?lb'"
    by (rule Cons.IH)
  then show ?case
    by (simp add: leaky_step_capacity)
qed

text \<open>
  C2. Bounds invariant. Take a limiter as its constructor builds it, with any capacity
  and any rate, and any sequence of calls of \<^verbatim>\<open>allow_request\<close>, for any
  identifiers and at any times (the times may go down as well as up, so elapsed times
  may be negative). Then every token count that the Token Bucket limiter stores, for any
  identifier, is at least 0 and at most the capacity, and every water level that the
  Leaky Bucket limiter stores is at least 0 and at most the capacity.
\<close>

theorem bounds_invariant:
  "(InMemoryTokenBucket_init c r = Inr tb \<longrightarrow>
      tokens (snd (token_requests tb calls)) identifier = Some v \<longrightarrow> 0 \<le> v \<and> v \<le> c)
   \<and> (InMemoryLeakyBucket_init c' r' = Inr lb \<longrightarrow>
      water_level (snd (leaky_requests lb calls')) identifier' = Some v' \<longrightarrow> 0 \<le> v' \<and> v' \<le> c')"
proof (intro conjI impI)
  assume init: "InMemoryTokenBucket_init c r = Inr tb"
    and stored: "tokens (snd (token_requests tb calls)) identifier = Some v"
  from init have "tokens tb = Map.empty" and cap: "InMemoryTokenBucket.capacity tb = c"
    by (auto simp: InMemoryTokenBucket_init_def)
  then have "\<And>i w. tokens tb i = Some w \<Longrightarrow> 0 \<le> w \<and> w \<le> InMemoryTokenBucket.capacity tb"
    by simp
  from token_requests_bounds [OF this stored] cap show "0 \<le> v" and "v \<le> c"
    by simp_all
next
  assume init: "InMemoryLeakyBucket_init c' r' = Inr lb"
    and stored: "water_level (snd (leaky_requests lb calls')) identifier' = Some v'"
  from init have "water_level lb = Map.empty" and cap: "capacity lb = c'"
    by (auto simp: InMemoryLeakyBucket_init_def)
  then have "\<And>i w. water_level lb i = Some w \<Longrightarrow> 0 \<le> w \<and> w \<le> capacity lb"
    by simp
  from leaky_requests_bounds [OF this stored] cap show "0 \<le> v'" and "v' \<le> c'"
    by simp_all
qed

theorem bounds_invariant_witness:
  "InMemoryTokenBucket_init 5 1 = Inr rate_limiter_token
   \<and> tokens (snd (token_requests rate_limiter_token [(''u'', 0), (''u'', - 3), (''v'', 2)])) ''u'' = Some 0
   \<and> (0::real) \<le> 0 \<and> (0::real) \<le> 5
   \<and> InMemoryLeakyBucket_init 5 1 = Inr rate_limiter_leaky
   \<and> water_level (snd (leaky_requests rate_limiter_leaky [(''u'', 0), (''u'', - 3), (''v'', 2)])) ''u'' = Some 5
   \<and> (0::real) \<le> 5 \<and> (5::real) \<le> 5"
  using bounds_invariant [of 5 1 rate_limiter_token "[(''u'', 0), (''u'', - 3), (''v'', 2)]" "''u''" 0
      5 1 rate_limiter_leaky "[(''u'', 0), (''u'', - 3), (''v'', 2)]" "''u''" 5]
  by (simp add: rate_limiter_token_init rate_limiter_leaky_init model_defs)

section \<open>A clock that goes back\<close>

text \<open>
  Lines 19 and 42 use \<^verbatim>\<open>now - last_refill\<close> and \<^verbatim>\<open>now - last_time\<close> as they
  are: nothing replaces a negative difference by 0. After four requests at time 10 the
  Token Bucket limiter stores 1 token; a call at time 9 finds 0 tokens available and is
  rejected, where a call at time 10 (no time elapsed) is admitted. After four requests at
  time 10 the Leaky Bucket limiter stores the level 4; a call at time 9 finds the level 5
  and is rejected, where a call at time 10 is admitted. So C4, which has such a call
  behave as a call with no time elapsed, does not hold of the code.
\<close>

theorem clock_guard_counterexample:
  "timestamps token_after_four ''anonymous'' = Some 10
   \<and> tokens token_after_four ''anonymous'' = Some 1
   \<and> new_tokens token_after_four ''anonymous'' 9 = 0
   \<and> fst (InMemoryTokenBucket_allow_request token_after_four ''anonymous'' 9) = False
   \<and> fst (InMemoryTokenBucket_allow_request token_after_four ''anonymous'' 10) = True
   \<and> last_checked leaky_after_four ''anonymous'' = Some 10
   \<and> water_level leaky_after_four ''anonymous'' = Some 4
   \<and> level leaky_after_four ''anonymous'' 9 = 5
   \<and> fst (InMemoryLeakyBucket_allow_request leaky_after_four ''anonymous'' 9) = False
   \<and> fst (InMemoryLeakyBucket_allow_request leaky_after_four ''anonymous'' 10) = True"
  by (simp add: token_after_four_eq leaky_after_four_eq model_defs)

text \<open>
  C4, amended. In both engines, with a rate that is not negative, a call whose time
  \<open>now\<close> is earlier than the stored time \<open>t\<close> of the identifier computes with the
  negative difference \<open>now - t\<close>, and never gains by it: in the Token Bucket engine the
  available tokens are at most those of a call at time \<open>t\<close> (no time elapsed), in the
  Leaky Bucket engine the level after the leak is at least that of a call at time \<open>t\<close>,
  and the call is admitted only where the call at time \<open>t\<close> is admitted.
\<close>

theorem clock_backwards_never_favours:
  "(timestamps tb identifier = Some t \<and> now < t \<and> 0 \<le> refill_rate tb \<longrightarrow>
      new_tokens tb identifier now \<le> new_tokens tb identifier t
      \<and> (fst (InMemoryTokenBucket_allow_request tb identifier now) \<longrightarrow>
           fst (InMemoryTokenBucket_allow_request tb identifier t)))
   \<and> (last_checked lb identifier' = Some t' \<and> now' < t' \<and> 0 \<le> leak_rate lb \<longrightarrow>
      level lb identifier' t' \<le> level lb identifier' now'
      \<and> (fst (InMemoryLeakyBucket_allow_request lb identifier' now') \<longrightarrow>
           fst (InMemoryLeakyBucket_allow_request lb identifier' t')))"
proof (intro conjI impI)
  assume h: "timestamps tb identifier = Some t \<and> now < t \<and> 0 \<le> refill_rate tb"
  then have "(now - t) * refill_rate tb \<le> 0"
    by (simp add: mult_le_0_iff)
  with h show le: "new_tokens tb identifier now \<le> new_tokens tb identifier t"
    by (auto simp: new_tokens_def Let_def min_def split: option.splits)
  assume "fst (InMemoryTokenBucket_allow_request tb identifier now)"
  then have "\<not> new_tokens tb identifier now < 1"
    by (simp add: InMemoryTokenBucket_allow_request_def split: if_splits)
  with le show "fst (InMemoryTokenBucket_allow_request tb identifier t)"
    by (simp add: InMemoryTokenBucket_allow_request_def)
next
  assume h: "last_checked lb identifier' = Some t' \<and> now' < t' \<and> 0 \<le> leak_rate lb"
  then have "(now' - t') * leak_rate lb \<le> 0"
    by (simp add: mult_le_0_iff)
  with h show le: "level lb identifier' t' \<le> level lb identifier' now'"
    by (auto simp: level_def Let_def max_def split: option.splits)
  assume "fst (InMemoryLeakyBucket_allow_request lb identifier' now')"
  then have "\<not> capacity lb < level lb identifier' now' + 1"
    by (simp add: InMemoryLeakyBucket_allow_request_def split: if_splits)
  with le show "fst (InMemoryLeakyBucket_allow_request lb identifier' t')"
    by (simp add: InMemoryLeakyBucket_allow_request_def)
qed

theorem clock_backwards_never_favours_witness:
  "timestamps (rate_limiter_token\<lparr>tokens := [''carol'' \<mapsto> 4], timestamps := [''carol'' \<mapsto> 10]\<rparr>) ''carol'' = Some 10
   \<and> (9::real) < 10
   \<and> 0 \<le> refill_rate (rate_limiter_token\<lparr>tokens := [''carol'' \<mapsto> 4], timestamps := [''carol'' \<mapsto> 10]\<rparr>)
   \<and> new_tokens (rate_limiter_token\<lparr>tokens := [''carol'' \<mapsto> 4], timestamps := [''carol'' \<mapsto> 10]\<rparr>) ''carol'' 9 = 3
   \<and> new_tokens (rate_limiter_token\<lparr>tokens := [''carol'' \<mapsto> 4], timestamps := [''carol'' \<mapsto> 10]\<rparr>) ''carol'' 10 = 4
   \<and> fst (InMemoryTokenBucket_allow_request
        (rate_limiter_token\<lparr>tokens := [''carol'' \<mapsto> 4], timestamps := [''carol'' \<mapsto> 10]\<rparr>) ''carol'' 9)
   \<and> fst (InMemoryTokenBucket_allow_request
        (rate_limiter_token\<lparr>tokens := [''carol'' \<mapsto> 4], timestamps := [''carol'' \<mapsto> 10]\<rparr>) ''carol'' 10)
   \<and> last_checked (rate_limiter_leaky\<lparr>water_level := [''carol'' \<mapsto> 1], last_checked := [''carol'' \<mapsto> 10]\<rparr>) ''carol'' = Some 10
   \<and> 0 \<le> leak_rate (rate_limiter_leaky\<lparr>water_level := [''carol'' \<mapsto> 1], last_checked := [''carol'' \<mapsto> 10]\<rparr>)
   \<and> level (rate_limiter_leaky\<lparr>water_level := [''carol'' \<mapsto> 1], last_checked := [''carol'' \<mapsto> 10]\<rparr>) ''carol'' 10 = 1
   \<and> level (rate_limiter_leaky\<lparr>water_level := [''carol'' \<mapsto> 1], last_checked := [''carol'' \<mapsto> 10]\<rparr>) ''carol'' 9 = 2
   \<and> fst (InMemoryLeakyBucket_allow_request
        (rate_limiter_leaky\<lparr>water_level := [''carol'' \<mapsto> 1], last_checked := [''carol'' \<mapsto> 10]\<rparr>) ''carol'' 9)
   \<and> fst (InMemoryLeakyBucket_allow_request
        (rate_limiter_leaky\<lparr>water_level := [''carol'' \<mapsto> 1], last_checked := [''carol'' \<mapsto> 10]\<rparr>) ''carol'' 10)"
  using clock_backwards_never_favours
    [of "rate_limiter_token\<lparr>tokens := [''carol'' \<mapsto> 4], timestamps := [''carol'' \<mapsto> 10]\<rparr>" "''carol''" 10 9
        "rate_limiter_leaky\<lparr>water_level := [''carol'' \<mapsto> 1], last_checked := [''carol'' \<mapsto> 10]\<rparr>" "''carol''" 10 9]
  by (simp add: model_defs)

section \<open>Recovery after one time unit\<close>

text \<open>
  C6. Token refill recovery. A Token Bucket limiter has capacity 5 and refill rate 1 and
  stores nothing for an identifier. Five calls for it at one time \<open>t\<close> are admitted and
  use up the 5 tokens; a call at time \<open>t + 1\<close> is admitted, and a second call at time
  \<open>t + 1\<close> is rejected.
\<close>

theorem token_refill_recovery:
  assumes "InMemoryTokenBucket.capacity tb = 5" and "refill_rate tb = 1"
    and "tokens tb identifier = None" and "timestamps tb identifier = None"
  shows "fst (token_requests tb
           [(identifier, t), (identifier, t), (identifier, t), (identifier, t), (identifier, t),
            (identifier, t + 1), (identifier, t + 1)])
         = [True, True, True, True, True, True, False]"
  using assms by (simp add: InMemoryTokenBucket_allow_request_def new_tokens_def)

theorem token_refill_recovery_witness:
  "fst (token_requests rate_limiter_token
           [(''anonymous'', 100), (''anonymous'', 100), (''anonymous'', 100), (''anonymous'', 100),
            (''anonymous'', 100), (''anonymous'', 100 + 1), (''anonymous'', 100 + 1)])
         = [True, True, True, True, True, True, False]"
  using token_refill_recovery [of rate_limiter_token "''anonymous''" 100]
  by (simp add: rate_limiter_token_def)

text \<open>
  C7. Leaky drain recovery. A Leaky Bucket limiter has capacity 5 and leak rate 1 and
  stores nothing for an identifier. Five calls for it at one time \<open>t\<close> are admitted and
  fill the bucket; a call at time \<open>t + 1\<close> is admitted, and a second call at time
  \<open>t + 1\<close> is rejected.
\<close>

theorem leaky_drain_recovery:
  assumes "capacity lb = 5" and "leak_rate lb = 1"
    and "water_level lb identifier = None" and "last_checked lb identifier = None"
  shows "fst (leaky_requests lb
           [(identifier, t), (identifier, t), (identifier, t), (identifier, t), (identifier, t),
            (identifier, t + 1), (identifier, t + 1)])
         = [True, True, True, True, True, True, False]"
  using assms by (simp add: InMemoryLeakyBucket_allow_request_def level_def)

theorem leaky_drain_recovery_witness:
  "fst (leaky_requests rate_limiter_leaky
           [(''anonymous'', 100), (''anonymous'', 100), (''anonymous'', 100), (''anonymous'', 100),
            (''anonymous'', 100), (''anonymous'', 100 + 1), (''anonymous'', 100 + 1)])
         = [True, True, True, True, True, True, False]"
  using leaky_drain_recovery [of rate_limiter_leaky "''anonymous''" 100]
  by (simp add: rate_limiter_leaky_def)

section \<open>Configuration\<close>



section \<open>A capacity below 1\<close>

text \<open>
  With a capacity below 1 the available tokens, which line 19 caps at the capacity, are
  below 1, and the level after the leak, which line 43 keeps at 0 or more, plus 1 exceeds
  the capacity: every call is rejected and the limiter never changes.
\<close>

lemma token_requests_sub_unit:
  "InMemoryTokenBucket.capacity tb < 1 \<Longrightarrow>
     token_requests tb calls = (replicate (length calls) False, tb)"
proof (induction calls)
  case Nil
  show ?case by simp
next
  case (Cons call calls)
  obtain who now where call: "call = (who, now)"
    by (cases call)
  have "new_tokens tb who now \<le> InMemoryTokenBucket.capacity tb"
    by (simp add: new_tokens_def Let_def)
  with Cons.prems have "InMemoryTokenBucket_allow_request tb who now = (False, tb)"
    by (simp add: InMemoryTokenBucket_allow_request_def)
  with Cons call show ?case
    by simp
qed

lemma leaky_requests_sub_unit:
  "capacity lb < 1 \<Longrightarrow>
     leaky_requests lb calls = (replicate (length calls) False, lb)"
proof (induction calls)
  case Nil
  show ?case by simp
next
  case (Cons call calls)
  obtain who now where call: "call = (who, now)"
    by (cases call)
  have "0 \<le> level lb who now"
    by (simp add: level_def Let_def)
  with Cons.prems have "InMemoryLeakyBucket_allow_request lb who now = (False, lb)"
    by (simp add: InMemoryLeakyBucket_allow_request_def)
  with Cons call show ?case
    by simp
qed

text \<open>
  C10. A capacity below 1 rejects everything. Take a capacity strictly between 0 and 1
  and a positive rate, and the limiter that either constructor builds from them. Every
  call of \<^verbatim>\<open>allow_request\<close> in every sequence of calls, for any identifiers and at
  any times, returns false, in the Token Bucket engine and in the Leaky Bucket engine.
\<close>

theorem sub_unit_capacity_rejects_all:
  assumes "0 < c" and "c < 1" and "0 < r"
    and "InMemoryTokenBucket_init c r = Inr tb" and "InMemoryLeakyBucket_init c r = Inr lb"
  shows "fst (token_requests tb calls) = replicate (length calls) False
       \<and> fst (leaky_requests lb calls') = replicate (length calls') False"
proof -
  from assms have "InMemoryTokenBucket.capacity tb < 1" and "capacity lb < 1"
    by (auto simp: InMemoryTokenBucket_init_def InMemoryLeakyBucket_init_def)
  then show ?thesis
    by (simp add: token_requests_sub_unit leaky_requests_sub_unit)
qed

theorem sub_unit_capacity_rejects_all_witness:
  "(0::real) < 1 / 2 \<and> (1::real) / 2 < 1 \<and> (0::real) < 3
   \<and> InMemoryTokenBucket_init (1 / 2) 3 =
       Inr \<lparr>InMemoryTokenBucket.capacity = 1 / 2, refill_rate = 3, tokens = Map.empty, timestamps = Map.empty\<rparr>
   \<and> InMemoryLeakyBucket_init (1 / 2) 3 =
       Inr \<lparr>capacity = 1 / 2, leak_rate = 3, water_level = Map.empty, last_checked = Map.empty\<rparr>
   \<and> fst (token_requests
        \<lparr>InMemoryTokenBucket.capacity = 1 / 2, refill_rate = 3, tokens = Map.empty, timestamps = Map.empty\<rparr>
        [(''dave'', 0), (''erin'', 50), (''dave'', 1000)]) = [False, False, False]
   \<and> fst (leaky_requests
        \<lparr>capacity = 1 / 2, leak_rate = 3, water_level = Map.empty, last_checked = Map.empty\<rparr>
        [(''dave'', 0), (''erin'', 50), (''dave'', 1000)]) = [False, False, False]"
  using sub_unit_capacity_rejects_all [of "1 / 2" 3
      "\<lparr>InMemoryTokenBucket.capacity = 1 / 2, refill_rate = 3, tokens = Map.empty, timestamps = Map.empty\<rparr>"
      "\<lparr>capacity = 1 / 2, leak_rate = 3, water_level = Map.empty, last_checked = Map.empty\<rparr>"
      "[(''dave'', 0), (''erin'', 50), (''dave'', 1000)]"
      "[(''dave'', 0), (''erin'', 50), (''dave'', 1000)]"]
  by (simp add: InMemoryTokenBucket_init_def InMemoryLeakyBucket_init_def)

end
